theory Spec2Isabelle
  imports Main "HOL-Library.Char_ord" "HOL-Library.List_Lexorder"
begin

section \<open>Message model (models/Message.js)\<close>

text \<open>
  An ObjectId is modelled by its string rendering (what \<^verbatim>\<open>toString()\<close> returns), a
  \<^verbatim>\<open>Date\<close> by its number of milliseconds since the epoch.
\<close>

type_synonym objectId = string
type_synonym date = int

text \<open>
  Modelled from the spec: \<^verbatim>\<open>MESSAGE_STATUSES\<close> and \<^verbatim>\<open>MESSAGE_TYPES\<close> of
  config/constants.js, which this development does not have. The spec gives the status
  values sent, delivered and read, and the types text, image, emoji and file.
\<close>

datatype message_status = SENT | DELIVERED | READ

datatype message_type = TEXT | IMAGE | EMOJI | FILE

record fileMetadata =
  filename :: "string option"
  byteSize :: "nat option"
  mimeType :: "string option"

record reaction =
  userId :: objectId
  emoji :: string

text \<open>
  Both schemas are declared with \<^verbatim>\<open>timestamps: true\<close>, which gives their documents
  the fields \<^verbatim>\<open>createdAt\<close> and \<^verbatim>\<open>updatedAt\<close>.
\<close>

record timestamps =
  createdAt :: date
  updatedAt :: date

text \<open>
  The fields of \<^verbatim>\<open>messageSchema\<close>. \<open>new_message\<close> is a message as it is stored
  when it is created at time \<open>now\<close>, with the defaults of the schema.
\<close>

record message = timestamps +
  senderId :: objectId
  receiverId :: objectId
  conversationId :: objectId
  content :: string
  messageType :: message_type
  imageUrl :: "string option"
  fileUrl :: "string option"
  fileMeta :: fileMetadata
  status :: message_status
  deliveredAt :: "date option"
  readAt :: "date option"
  isDeleted :: bool
  isEdited :: bool
  editedAt :: "date option"
  replyTo :: "objectId option"
  reactions :: "reaction list"

definition new_message ::
  "objectId \<Rightarrow> objectId \<Rightarrow> objectId \<Rightarrow> string \<Rightarrow> date \<Rightarrow> message" where
  "new_message sender receiver conv text now =
     \<lparr> createdAt = now, updatedAt = now,
       senderId = sender, receiverId = receiver, conversationId = conv, content = text,
       messageType = TEXT, imageUrl = None, fileUrl = None,
       fileMeta = \<lparr> filename = None, byteSize = None, mimeType = None \<rparr>,
       status = SENT, deliveredAt = None, readAt = None, isDeleted = False,
       isEdited = False, editedAt = None, replyTo = None, reactions = [] \<rparr>"

text \<open>The virtual \<^verbatim>\<open>isRead\<close>.\<close>

definition isRead :: "message \<Rightarrow> bool" where
  "isRead this \<longleftrightarrow> status this = READ \<or> readAt this \<noteq> None"

text \<open>
  \<^verbatim>\<open>this.isModified("status")\<close>: the document's status differs from the one it was
  loaded with (\<open>stored\<close>).
\<close>

definition isModified_status :: "message \<Rightarrow> message \<Rightarrow> bool" where
  "isModified_status stored this \<longleftrightarrow> status this \<noteq> status stored"

text \<open>
  The pre-save hook. \<open>now\<close> is what \<^verbatim>\<open>new Date()\<close> returns while the hook runs; its
  two branches exclude each other, so one reading is enough.
\<close>

definition pre_save_message :: "message \<Rightarrow> date \<Rightarrow> message \<Rightarrow> message" where
  "pre_save_message stored now this =
     (let this1 = (if isModified_status stored this \<and> status this = DELIVERED
                   then this\<lparr>deliveredAt := Some now\<rparr> else this);
          this2 = (if isModified_status stored this1 \<and> status this1 = READ
                   then this1\<lparr>readAt := Some now\<rparr> else this1)
      in this2)"

text \<open>
  The save hook that \<^verbatim>\<open>timestamps: true\<close> installs, on a document that is already
  stored: when a path of the document is modified (\<^verbatim>\<open>this.isModified()\<close>, the
  document differs from the one that was loaded), \<^verbatim>\<open>updatedAt\<close> is set to the
  current time \<open>now_stamp\<close>. \<^verbatim>\<open>createdAt\<close> is set at the first save only.
\<close>

definition timestamps_message :: "message \<Rightarrow> date \<Rightarrow> message \<Rightarrow> message" where
  "timestamps_message stored now_stamp this =
     (if this \<noteq> stored then this\<lparr>updatedAt := now_stamp\<rparr> else this)"

text \<open>
  \<^verbatim>\<open>this.save()\<close>: the hooks run, the one of the schema option first, and their
  result is the document that is stored.
\<close>

definition save_message :: "message \<Rightarrow> date \<Rightarrow> date \<Rightarrow> message \<Rightarrow> message" where
  "save_message stored now_save now_stamp this =
     pre_save_message stored now_save (timestamps_message stored now_stamp this)"

text \<open>
  The instance methods, as functions from the document before the call to the document
  after it. \<open>now\<close> is the clock reading of the method body, \<open>now_save\<close> the one of the
  schema's own save hook and \<open>now_stamp\<close> the one of the time stamp hook.
\<close>

definition markAsDelivered :: "date \<Rightarrow> date \<Rightarrow> date \<Rightarrow> message \<Rightarrow> message" where
  "markAsDelivered now now_save now_stamp this =
     (if status this = SENT
      then save_message this now_save now_stamp
             (this\<lparr>status := DELIVERED, deliveredAt := Some now\<rparr>)
      else this)"

definition markAsRead :: "date \<Rightarrow> date \<Rightarrow> date \<Rightarrow> message \<Rightarrow> message" where
  "markAsRead now now_save now_stamp this =
     (if status this \<noteq> READ
      then save_message this now_save now_stamp (this\<lparr>status := READ, readAt := Some now\<rparr>)
      else this)"

text \<open>
  \<^verbatim>\<open>addReaction\<close>: \<^verbatim>\<open>Array.prototype.find\<close> is \<^const>\<open>List.find\<close>, and
  \<^verbatim>\<open>!existingReaction\<close> holds when nothing was found. The early return is taken in
  that case, as the source has it.
\<close>

definition addReaction ::
  "objectId \<Rightarrow> string \<Rightarrow> date \<Rightarrow> date \<Rightarrow> message \<Rightarrow> message" where
  "addReaction uid e now_save now_stamp this =
     (let existingReaction = List.find (\<lambda>r. userId r = uid \<and> emoji r = e) (reactions this)
      in if existingReaction = None then this
         else save_message this now_save now_stamp
                (this\<lparr>reactions := reactions this @ [\<lparr>userId = uid, emoji = e\<rparr>]\<rparr>))"

definition removeReaction ::
  "objectId \<Rightarrow> string \<Rightarrow> date \<Rightarrow> date \<Rightarrow> message \<Rightarrow> message" where
  "removeReaction uid e now_save now_stamp this =
     save_message this now_save now_stamp
       (this\<lparr>reactions := filter (\<lambda>r. \<not> (userId r = uid \<and> emoji r = e)) (reactions this)\<rparr>)"

text \<open>
  The statics work on the collection, a list of documents. \<^verbatim>\<open>countDocuments\<close> counts the
  documents a query selects; \<^verbatim>\<open>updateMany\<close> rewrites the selected ones and runs no
  save hook, but with \<^verbatim>\<open>timestamps: true\<close> the update also sets
  \<^verbatim>\<open>updatedAt\<close>, to the time \<open>now_stamp\<close> at which the update is sent.
\<close>

fun countDocuments :: "('a \<Rightarrow> bool) \<Rightarrow> 'a list \<Rightarrow> nat" where
  "countDocuments q [] = 0"
| "countDocuments q (d # ds) = (if q d then Suc (countDocuments q ds) else countDocuments q ds)"

fun updateMany :: "('a \<Rightarrow> bool) \<Rightarrow> ('a \<Rightarrow> 'a) \<Rightarrow> 'a list \<Rightarrow> 'a list" where
  "updateMany q u [] = []"
| "updateMany q u (d # ds) = (if q d then u d else d) # updateMany q u ds"

definition getUnreadCount :: "objectId \<Rightarrow> message list \<Rightarrow> nat" where
  "getUnreadCount uid coll =
     countDocuments (\<lambda>d. receiverId d = uid \<and> status d \<noteq> READ \<and> isDeleted d = False) coll"

definition markConversationAsRead ::
  "objectId \<Rightarrow> objectId \<Rightarrow> date \<Rightarrow> date \<Rightarrow> message list \<Rightarrow> message list" where
  "markConversationAsRead cid uid now now_stamp coll =
     updateMany (\<lambda>d. conversationId d = cid \<and> receiverId d = uid \<and> status d \<noteq> READ)
       (\<lambda>d. d\<lparr>status := READ, readAt := Some now, updatedAt := now_stamp\<rparr>) coll"

text \<open>The order sent < delivered < read of the spec.\<close>

fun status_order :: "message_status \<Rightarrow> nat" where
  "status_order SENT = 0"
| "status_order DELIVERED = 1"
| "status_order READ = 2"


section \<open>Conversation model (models/Conversation.js)\<close>

datatype conversation_type = Direct | Group

record metadata =
  messageCount :: nat
  createdBy :: "objectId option"

text \<open>The fields of \<^verbatim>\<open>conversationSchema\<close>; \<open>oid\<close> is the document's \<^verbatim>\<open>_id\<close>.\<close>

record conversation = timestamps +
  oid :: objectId
  participants :: "objectId list"
  lastMessage :: "objectId option"
  lastMessageTime :: date
  name :: "string option"
  avatar :: "string option"
  ctype :: conversation_type
  mutedBy :: "objectId list"
  archivedBy :: "objectId list"
  meta :: metadata

text \<open>
  The rendering of an ObjectId (\<^verbatim>\<open>toString()\<close>) is a string of 24 lower-case
  hexadecimal digits.
\<close>

definition hex_digit :: "char \<Rightarrow> bool" where
  "hex_digit c \<longleftrightarrow> c \<in> set ''0123456789abcdef''"

definition rendering :: "string \<Rightarrow> bool" where
  "rendering s \<longleftrightarrow> length s = 24 \<and> list_all hex_digit s"

text \<open>
  \<^verbatim>\<open>a.toString().localeCompare(b.toString())\<close>. The result is that of the collation
  of the runtime's locale. On the renderings of two ObjectIds the default collation
  agrees with the lexicographic order of the characters; on other strings it need
  not, and the model leaves the result open there.
\<close>

definition localeCompare :: "string \<Rightarrow> string \<Rightarrow> int" where
  "localeCompare a b =
     (if rendering a \<and> rendering b
      then (if a < b then - 1 else if a = b then 0 else 1)
      else undefined a b)"

text \<open>
  \<^verbatim>\<open>Array.prototype.sort(compareFn)\<close>, a stable sort: each element goes in front of
  the first element of the sorted rest that it does not compare greater than.
\<close>

fun sort_insert :: "('a \<Rightarrow> 'a \<Rightarrow> int) \<Rightarrow> 'a \<Rightarrow> 'a list \<Rightarrow> 'a list" where
  "sort_insert compareFn x [] = [x]"
| "sort_insert compareFn x (y # ys) =
     (if compareFn x y \<le> 0 then x # y # ys else y # sort_insert compareFn x ys)"

fun array_sort :: "('a \<Rightarrow> 'a \<Rightarrow> int) \<Rightarrow> 'a list \<Rightarrow> 'a list" where
  "array_sort compareFn [] = []"
| "array_sort compareFn (x # xs) = sort_insert compareFn x (array_sort compareFn xs)"

text \<open>The pre-save hook of the conversation schema.\<close>

definition pre_save_conversation :: "conversation \<Rightarrow> conversation" where
  "pre_save_conversation this =
     (if ctype this = Direct \<and> length (participants this) = 2
      then this\<lparr>participants := array_sort localeCompare (participants this)\<rparr>
      else this)"

text \<open>
  The time stamp hook on a stored conversation, and \<^verbatim>\<open>this.save()\<close> of a stored
  conversation that was loaded as \<open>stored\<close>.
\<close>

definition timestamps_conversation :: "conversation \<Rightarrow> date \<Rightarrow> conversation \<Rightarrow> conversation" where
  "timestamps_conversation stored now_stamp this =
     (if this \<noteq> stored then this\<lparr>updatedAt := now_stamp\<rparr> else this)"

definition save_conversation :: "conversation \<Rightarrow> date \<Rightarrow> conversation \<Rightarrow> conversation" where
  "save_conversation stored now_stamp this =
     pre_save_conversation (timestamps_conversation stored now_stamp this)"

text \<open>
  The collection is the list of its documents in insertion order; \<^verbatim>\<open>findOne\<close> returns
  the first document the query selects.
\<close>

definition findOne :: "('a \<Rightarrow> bool) \<Rightarrow> 'a list \<Rightarrow> 'a option" where
  "findOne q coll = List.find q coll"

text \<open>
  The index \<^verbatim>\<open>unique_participants_direct_chat\<close> is a unique index on the array field
  \<^verbatim>\<open>participants\<close>. The store keeps one key for each element of the array and
  rejects a document when one of its keys is already a key of another document.
\<close>

definition violates_unique_participants :: "conversation \<Rightarrow> conversation list \<Rightarrow> bool" where
  "violates_unique_participants doc coll \<longleftrightarrow>
     list_ex (\<lambda>d. list_ex (\<lambda>p. p \<in> set (participants d)) (participants doc)) coll"

datatype store_error = DuplicateKeyError

text \<open>
  What a call of \<^verbatim>\<open>findOrCreateConversation\<close> takes from its environment: the
  \<^verbatim>\<open>_id\<close> generated for a created document, the value the schema default
  \<^verbatim>\<open>new Date()\<close> of \<^verbatim>\<open>lastMessageTime\<close> had when the schema was defined, the
  time at which a created document is saved, and what other writers do to the
  collection while the call is suspended at \<^verbatim>\<open>await this.findOne\<close>.
\<close>

record call_env =
  generatedId :: objectId
  schemaDate :: date
  createDate :: date
  otherWriters :: "conversation list \<Rightarrow> conversation list"

text \<open>
  \<^verbatim>\<open>this.create\<close>: schema defaults, the save hooks (a new document gets both time
  stamps), then the insertion.
\<close>

definition create ::
  "call_env \<Rightarrow> objectId list \<Rightarrow> objectId \<Rightarrow> conversation list
     \<Rightarrow> store_error + conversation \<times> conversation list" where
  "create env ps creator coll =
     (let doc = pre_save_conversation
                  \<lparr> createdAt = createDate env, updatedAt = createDate env,
                    oid = generatedId env, participants = ps, lastMessage = None,
                    lastMessageTime = schemaDate env, name = None, avatar = None,
                    ctype = Direct, mutedBy = [], archivedBy = [],
                    meta = \<lparr> messageCount = 0, createdBy = Some creator \<rparr> \<rparr>
      in if violates_unique_participants doc coll then Inl DuplicateKeyError
         else Inr (doc, coll @ [doc]))"

text \<open>
  \<^verbatim>\<open>$all\<close> selects the documents whose array holds every listed value. The
  \<^verbatim>\<open>catch\<close> block logs and throws the error again, so the error of
  \<^verbatim>\<open>create\<close> is the result of the call. The result pairs what the call returns with
  the collection after it.
\<close>

definition findOrCreateConversation ::
  "call_env \<Rightarrow> objectId \<Rightarrow> objectId \<Rightarrow> conversation list
     \<Rightarrow> (store_error + conversation) \<times> conversation list" where
  "findOrCreateConversation env userId1 userId2 coll =
     (let ps = array_sort localeCompare [userId1, userId2] in
      case findOne (\<lambda>d. set ps \<subseteq> set (participants d) \<and> ctype d = Direct) coll of
        Some conversation \<Rightarrow> (Inr conversation, coll)
      | None \<Rightarrow>
          (let coll1 = otherWriters env coll in
           case create env ps userId1 coll1 of
             Inl error \<Rightarrow> (Inl error, coll1)
           | Inr (conversation, coll2) \<Rightarrow> (Inr conversation, coll2)))"

text \<open>
  \<^verbatim>\<open>indexOf\<close> of a document array: the first index of the value, or -1.
  \<^verbatim>\<open>splice(index, 1)\<close> removes the element at the index; a negative index counts
  from the end.
\<close>

fun indexOf :: "'a list \<Rightarrow> 'a \<Rightarrow> int" where
  "indexOf [] x = - 1"
| "indexOf (y # ys) x =
     (if y = x then 0 else (let i = indexOf ys x in if i > - 1 then i + 1 else - 1))"

definition splice1 :: "int \<Rightarrow> 'a list \<Rightarrow> 'a list" where
  "splice1 index xs =
     (let start = (if index < 0 then nat (max (int (length xs) + index) 0)
                   else min (nat index) (length xs))
      in take start xs @ drop (Suc start) xs)"

text \<open>
  What the promise a method returns resolves to: a JavaScript boolean or a document.
  \<^verbatim>\<open>this.save()\<close> resolves to the saved document.
\<close>

datatype 'd resolved = Boolean bool | Document 'd

definition toggleMute :: "objectId \<Rightarrow> date \<Rightarrow> conversation \<Rightarrow> conversation resolved" where
  "toggleMute uid now_stamp this =
     (let index = indexOf (mutedBy this) uid in
      Document (save_conversation this now_stamp
        (if index > - 1 then this\<lparr>mutedBy := splice1 index (mutedBy this)\<rparr>
         else this\<lparr>mutedBy := mutedBy this @ [uid]\<rparr>)))"

definition toggleArchive :: "objectId \<Rightarrow> date \<Rightarrow> conversation \<Rightarrow> conversation resolved" where
  "toggleArchive uid now_stamp this =
     (let index = indexOf (archivedBy this) uid in
      Document (save_conversation this now_stamp
        (if index > - 1 then this\<lparr>archivedBy := splice1 index (archivedBy this)\<rparr>
         else this\<lparr>archivedBy := archivedBy this @ [uid]\<rparr>)))"

definition isMutedFor :: "objectId \<Rightarrow> conversation \<Rightarrow> bool" where
  "isMutedFor uid this \<longleftrightarrow> list_ex (\<lambda>i. i = uid) (mutedBy this)"

definition isArchivedFor :: "objectId \<Rightarrow> conversation \<Rightarrow> bool" where
  "isArchivedFor uid this \<longleftrightarrow> list_ex (\<lambda>i. i = uid) (archivedBy this)"

section \<open>Presence registry (io/socketHandler.js, as the README gives it)\<close>

text \<open>
  \<^verbatim>\<open>activeUsers\<close> is a \<^verbatim>\<open>Map\<close> from user id to socket id. Its key is
  \<^verbatim>\<open>socket.handshake.query.userId\<close>, a string or \<^verbatim>\<open>undefined\<close> (\<open>None\<close>). The
  events are named by the members of \<^verbatim>\<open>SOCKET_EVENTS\<close> (their string values
  are not needed), and \<open>emitted\<close> records
  the broadcasts of \<^verbatim>\<open>io.emit\<close> in order: the user id, the status and the time stamp
  (\<^verbatim>\<open>timestamp\<close> for online, \<^verbatim>\<open>lastSeen\<close> for offline) of the payload.
\<close>

datatype broadcast =
    USER_ONLINE "string option" string date
  | USER_OFFLINE "string option" string date

record registry =
  activeUsers :: "string option \<rightharpoonup> string"
  emitted :: "broadcast list"

definition empty_registry :: registry where
  "empty_registry = \<lparr> activeUsers = Map.empty, emitted = [] \<rparr>"

text \<open>JavaScript truthiness of a value that is a string or \<^verbatim>\<open>undefined\<close>.\<close>

fun truthy :: "string option \<Rightarrow> bool" where
  "truthy None = False"
| "truthy (Some s) = (s \<noteq> [])"

text \<open>The connection handler, for a socket with id \<open>socketId\<close> and query user \<open>uid\<close>.\<close>

definition on_connect :: "string \<Rightarrow> string option \<Rightarrow> date \<Rightarrow> registry \<Rightarrow> registry" where
  "on_connect socketId uid now st =
     (if truthy uid
      then st\<lparr> activeUsers := (activeUsers st)(uid \<mapsto> socketId),
               emitted := emitted st @ [USER_ONLINE uid ''online'' now] \<rparr>
      else st)"

text \<open>The disconnect handler of a socket whose query user is \<open>uid\<close>.\<close>

definition on_disconnect :: "string option \<Rightarrow> date \<Rightarrow> registry \<Rightarrow> registry" where
  "on_disconnect uid now st =
     st\<lparr> activeUsers := (activeUsers st)(uid := None),
         emitted := emitted st @ [USER_OFFLINE uid ''offline'' now] \<rparr>"

text \<open>
  \<^verbatim>\<open>activeUsers.get(receiverId)\<close>, by which the message and typing handlers decide
  whether the receiver can be reached.
\<close>

definition receiverSocketId :: "registry \<Rightarrow> string \<Rightarrow> string option" where
  "receiverSocketId st receiver = activeUsers st (Some receiver)"

section \<open>Example runs\<close>

text \<open>Three users and three generated conversation ids, as renderings of ObjectIds.\<close>

definition user_a :: objectId where "user_a = ''aaaaaaaaaaaaaaaaaaaaaaaa''"
definition user_b :: objectId where "user_b = ''bbbbbbbbbbbbbbbbbbbbbbbb''"
definition user_c :: objectId where "user_c = ''cccccccccccccccccccccccc''"

definition conv_1 :: objectId where "conv_1 = ''111111111111111111111111''"
definition conv_2 :: objectId where "conv_2 = ''222222222222222222222222''"
definition conv_3 :: objectId where "conv_3 = ''333333333333333333333333''"

text \<open>
  A call that no other writer disturbs; a call during whose lookup another caller runs
  \<^verbatim>\<open>findOrCreateConversation\<close> for the same two users b and a to its end; and a
  later undisturbed call. \<open>conv_ab\<close> is the conversation which the call for b and a
  creates in an empty collection, \<open>conv_ac\<close> the one which the call for a and c
  creates there.
\<close>

definition quiet_env :: call_env where
  "quiet_env =
     \<lparr> generatedId = conv_1, schemaDate = 0, createDate = 1, otherWriters = (\<lambda>coll. coll) \<rparr>"

definition racing_env :: call_env where
  "racing_env =
     \<lparr> generatedId = conv_2, schemaDate = 0, createDate = 1,
       otherWriters = (\<lambda>coll. snd (findOrCreateConversation quiet_env user_b user_a coll)) \<rparr>"

definition later_env :: call_env where
  "later_env =
     \<lparr> generatedId = conv_3, schemaDate = 0, createDate = 2, otherWriters = (\<lambda>coll. coll) \<rparr>"

definition conv_ab :: conversation where
  "conv_ab =
     \<lparr> createdAt = 1, updatedAt = 1,
       oid = conv_1, participants = [user_a, user_b], lastMessage = None,
       lastMessageTime = 0, name = None, avatar = None, ctype = Direct,
       mutedBy = [], archivedBy = [],
       meta = \<lparr> messageCount = 0, createdBy = Some user_b \<rparr> \<rparr>"

definition conv_ac :: conversation where
  "conv_ac =
     \<lparr> createdAt = 1, updatedAt = 1,
       oid = conv_1, participants = [user_a, user_c], lastMessage = None,
       lastMessageTime = 0, name = None, avatar = None, ctype = Direct,
       mutedBy = [], archivedBy = [],
       meta = \<lparr> messageCount = 0, createdBy = Some user_a \<rparr> \<rparr>"

section \<open>Properties of the message model\<close>

lemma differs_status: "status (a :: message) \<noteq> status b \<Longrightarrow> a \<noteq> b"
  by auto

lemma differs_reactions: "reactions (a :: message) \<noteq> reactions b \<Longrightarrow> a \<noteq> b"
  by auto

lemma markAsDelivered_not_sent: "status m \<noteq> SENT \<Longrightarrow> markAsDelivered t t' s m = m"
  by (simp add: markAsDelivered_def)

lemma markAsDelivered_sent:
  assumes "status m = SENT"
  shows "markAsDelivered t t' s m
           = m\<lparr>status := DELIVERED, deliveredAt := Some t', updatedAt := s\<rparr>"
proof -
  have "m\<lparr>status := DELIVERED, deliveredAt := Some t\<rparr> \<noteq> m"
    by (rule differs_status) (simp add: assms)
  with assms show ?thesis
    by (simp add: markAsDelivered_def save_message_def timestamps_message_def
          pre_save_message_def isModified_status_def)
qed

lemma markAsRead_read: "status m = READ \<Longrightarrow> markAsRead t t' s m = m"
  by (simp add: markAsRead_def)

lemma markAsRead_not_read:
  assumes "status m \<noteq> READ"
  shows "markAsRead t t' s m = m\<lparr>status := READ, readAt := Some t', updatedAt := s\<rparr>"
proof -
  have "m\<lparr>status := READ, readAt := Some t\<rparr> \<noteq> m"
    by (rule differs_status) (use assms in simp)
  with assms show ?thesis
    by (simp add: markAsRead_def save_message_def timestamps_message_def
          pre_save_message_def isModified_status_def)
qed

lemma status_markAsRead: "status (markAsRead t t' s m) = READ"
  by (cases "status m = READ") (simp_all add: markAsRead_read markAsRead_not_read)

lemma save_message_same_status:
  "status this = status stored \<Longrightarrow>
   save_message stored t s this = timestamps_message stored s this"
  by (simp add: save_message_def timestamps_message_def pre_save_message_def
        isModified_status_def)

lemma status_timestamps_message: "status (timestamps_message stored s this) = status this"
  by (simp add: timestamps_message_def)

lemma find_reaction_None:
  "(List.find (\<lambda>r. userId r = u \<and> emoji r = e) rs = None) \<longleftrightarrow>
   \<lparr>userId = u, emoji = e\<rparr> \<notin> set rs"
proof (induction rs)
  case Nil
  show ?case by simp
next
  case (Cons r rs)
  obtain u' e' where r: "r = \<lparr>userId = u', emoji = e'\<rparr>" by (cases r) simp
  from Cons show ?case by (auto simp: r)
qed

lemma addReaction_eq:
  "addReaction u e t s m =
     (if \<lparr>userId = u, emoji = e\<rparr> \<in> set (reactions m)
      then m\<lparr>reactions := reactions m @ [\<lparr>userId = u, emoji = e\<rparr>], updatedAt := s\<rparr>
      else m)"
proof -
  have "m\<lparr>reactions := reactions m @ [\<lparr>userId = u, emoji = e\<rparr>]\<rparr> \<noteq> m"
    by (rule differs_reactions) simp
  then show ?thesis
    by (simp add: addReaction_def find_reaction_None save_message_same_status
          timestamps_message_def)
qed

lemma status_removeReaction: "status (removeReaction u e t s m) = status m"
  by (simp add: removeReaction_def save_message_same_status status_timestamps_message)

lemma length_updateMany: "length (updateMany q u ds) = length ds"
  by (induction ds) simp_all

lemma nth_updateMany:
  "i < length ds \<Longrightarrow> updateMany q u ds ! i = (if q (ds ! i) then u (ds ! i) else ds ! i)"
proof (induction ds arbitrary: i)
  case Nil then show ?case by simp
next
  case (Cons d ds) then show ?case by (cases i) simp_all
qed

lemma updateMany_idle: "(\<And>d. d \<in> set ds \<Longrightarrow> \<not> q d) \<Longrightarrow> updateMany q u ds = ds"
  by (induction ds) simp_all

lemma updateMany_settled:
  assumes "\<And>d. q d \<Longrightarrow> \<not> q (u d)"
  shows "d \<in> set (updateMany q u ds) \<Longrightarrow> \<not> q d"
  using assms by (induction ds) (auto split: if_splits)

lemma markConversationAsRead_twice:
  "markConversationAsRead c u t' s' (markConversationAsRead c u t s ms)
     = markConversationAsRead c u t s ms"
proof -
  let ?q = "\<lambda>d. conversationId d = c \<and> receiverId d = u \<and> status d \<noteq> READ"
  let ?u = "\<lambda>d. d\<lparr>status := READ, readAt := Some t, updatedAt := s\<rparr>"
  have "\<not> ?q d" if "d \<in> set (updateMany ?q ?u ms)" for d
    using that by (rule updateMany_settled [rotated]) simp
  then have "updateMany ?q (\<lambda>d. d\<lparr>status := READ, readAt := Some t', updatedAt := s'\<rparr>)
        (updateMany ?q ?u ms)
      = updateMany ?q ?u ms"
    by (rule updateMany_idle)
  then show ?thesis by (simp only: markConversationAsRead_def)
qed

lemma nth_markConversationAsRead:
  "i < length ms \<Longrightarrow>
   markConversationAsRead c u t s ms ! i =
     (if conversationId (ms ! i) = c \<and> receiverId (ms ! i) = u \<and> status (ms ! i) \<noteq> READ
      then (ms ! i)\<lparr>status := READ, readAt := Some t, updatedAt := s\<rparr> else ms ! i)"
  by (simp add: markConversationAsRead_def nth_updateMany)

lemma countDocuments_filter: "countDocuments q ds = length (filter q ds)"
  by (induction ds) simp_all

lemma status_order_READ: "status_order s \<le> status_order READ"
  by (cases s) simp_all

text \<open>
  Claim C1. \<^verbatim>\<open>addReaction\<close> is to leave the message alone when the pair of user and
  emoji is already among the reactions, and to append the pair otherwise. The code
  returns early when the pair is \<^emph>\<open>not\<close> found: on a message without reactions nothing
  is appended, and on a message that has the pair, the pair is appended a second time.
\<close>

theorem addReaction_early_return_inverted:
  "reactions (addReaction ''u2'' ''+1'' 7 8 (new_message ''u1'' ''u2'' ''c1'' ''hi'' 1)) = [] \<and>
   reactions (addReaction ''u2'' ''+1'' 7 8
     ((new_message ''u1'' ''u2'' ''c1'' ''hi'' 1)
        \<lparr>reactions := [\<lparr>userId = ''u2'', emoji = ''+1''\<rparr>]\<rparr>))
     = [\<lparr>userId = ''u2'', emoji = ''+1''\<rparr>, \<lparr>userId = ''u2'', emoji = ''+1''\<rparr>]"
  by (simp add: addReaction_eq new_message_def)

text \<open>
  Claim C8. Calling \<^verbatim>\<open>addReaction\<close> twice with the same user and emoji is to leave the
  list of reactions as long as the first call left it. On a message that has the pair
  once, the code makes the list two long with the first call and three long with the
  second.
\<close>

theorem addReaction_repeated_grows:
  "length (reactions (addReaction ''u2'' ''+1'' 7 8
     ((new_message ''u1'' ''u2'' ''c1'' ''hi'' 1)
        \<lparr>reactions := [\<lparr>userId = ''u2'', emoji = ''+1''\<rparr>]\<rparr>))) = 2 \<and>
   length (reactions (addReaction ''u2'' ''+1'' 9 10 (addReaction ''u2'' ''+1'' 7 8
     ((new_message ''u1'' ''u2'' ''c1'' ''hi'' 1)
        \<lparr>reactions := [\<lparr>userId = ''u2'', emoji = ''+1''\<rparr>]\<rparr>)))) = 3"
  by (simp add: addReaction_eq new_message_def)

text \<open>
  Claim C2. The status moves forward only, in the order sent, delivered, read.
  \<^verbatim>\<open>markAsDelivered\<close> leaves a delivered or read message as it is, so after
  \<^verbatim>\<open>markAsRead\<close> the status stays read; on a sent message it sets the status to
  delivered and \<^verbatim>\<open>deliveredAt\<close> to the time of the save, and besides them only the
  time stamp \<^verbatim>\<open>updatedAt\<close>. None of \<^verbatim>\<open>markAsDelivered\<close>, \<^verbatim>\<open>markAsRead\<close>,
  \<^verbatim>\<open>addReaction\<close>, \<^verbatim>\<open>removeReaction\<close> and \<^verbatim>\<open>markConversationAsRead\<close>
  lowers the status of a message.
\<close>

theorem status_never_moves_backward:
  "(status m \<noteq> SENT \<longrightarrow> markAsDelivered t t' s m = m) \<and>
   status (markAsDelivered t t' s (markAsRead t0 t1 s0 m)) = READ \<and>
   (status m = SENT \<longrightarrow>
      markAsDelivered t t' s m
        = m\<lparr>status := DELIVERED, deliveredAt := Some t', updatedAt := s\<rparr>) \<and>
   status_order (status m) \<le> status_order (status (markAsDelivered t t' s m)) \<and>
   status_order (status m) \<le> status_order (status (markAsRead t t' s m)) \<and>
   status (addReaction u e t' s m) = status m \<and>
   status (removeReaction u e t' s m) = status m \<and>
   (\<forall>i < length ms.
      status_order (status (ms ! i))
        \<le> status_order (status (markConversationAsRead c u t s ms ! i)))"
proof (intro conjI impI allI)
  show "markAsDelivered t t' s m = m" if "status m \<noteq> SENT"
    using that by (rule markAsDelivered_not_sent)
  show "status (markAsDelivered t t' s (markAsRead t0 t1 s0 m)) = READ"
    by (simp add: markAsDelivered_not_sent status_markAsRead)
  show "markAsDelivered t t' s m
      = m\<lparr>status := DELIVERED, deliveredAt := Some t', updatedAt := s\<rparr>"
    if "status m = SENT"
    using that by (rule markAsDelivered_sent)
  show "status_order (status m) \<le> status_order (status (markAsDelivered t t' s m))"
    by (cases "status m = SENT") (simp_all add: markAsDelivered_sent markAsDelivered_not_sent)
  show "status_order (status m) \<le> status_order (status (markAsRead t t' s m))"
    using status_order_READ [of "status m"] by (simp add: status_markAsRead)
  show "status (addReaction u e t' s m) = status m"
    by (simp add: addReaction_eq)
  show "status (removeReaction u e t' s m) = status m"
    by (rule status_removeReaction)
  show "status_order (status (ms ! i))
      \<le> status_order (status (markConversationAsRead c u t s ms ! i))"
    if "i < length ms" for i
    using that status_order_READ [of "status (ms ! i)"]
    by (simp add: nth_markConversationAsRead)
qed

theorem status_never_moves_backward_witness:
  "status (markAsRead 5 6 7 (new_message ''u1'' ''u2'' ''c1'' ''hi'' 1)) \<noteq> SENT \<and>
   markAsDelivered 8 9 10 (markAsRead 5 6 7 (new_message ''u1'' ''u2'' ''c1'' ''hi'' 1))
     = markAsRead 5 6 7 (new_message ''u1'' ''u2'' ''c1'' ''hi'' 1) \<and>
   status (new_message ''u1'' ''u2'' ''c1'' ''hi'' 1) = SENT \<and>
   markAsDelivered 8 9 10 (new_message ''u1'' ''u2'' ''c1'' ''hi'' 1)
     = (new_message ''u1'' ''u2'' ''c1'' ''hi'' 1)
         \<lparr>status := DELIVERED, deliveredAt := Some 9, updatedAt := 10\<rparr> \<and>
   (0::nat) < length [new_message ''u1'' ''u2'' ''c1'' ''hi'' 1] \<and>
   status_order (status ([new_message ''u1'' ''u2'' ''c1'' ''hi'' 1] ! 0))
     \<le> status_order (status (markConversationAsRead ''c1'' ''u2'' 4 5
          [new_message ''u1'' ''u2'' ''c1'' ''hi'' 1] ! 0))"
  using status_never_moves_backward
          [of "markAsRead 5 6 7 (new_message ''u1'' ''u2'' ''c1'' ''hi'' 1)" 8 9 10 5 6 7
              "''u2''" "''+1''" "[new_message ''u1'' ''u2'' ''c1'' ''hi'' 1]" "''c1''"]
        status_never_moves_backward
          [of "new_message ''u1'' ''u2'' ''c1'' ''hi'' 1" 8 9 10 5 6 7
              "''u2''" "''+1''" "[new_message ''u1'' ''u2'' ''c1'' ''hi'' 1]" "''c1''"]
  by (simp add: status_markAsRead new_message_def)

text \<open>
  Claim C6. \<^verbatim>\<open>markAsRead\<close> sets the status of a message that is not read to read
  and \<^verbatim>\<open>readAt\<close> to the time of the save; on a read message it changes nothing, so
  a second call keeps the \<^verbatim>\<open>readAt\<close> of the first. \<^verbatim>\<open>markConversationAsRead\<close>
  sets the status to read and \<^verbatim>\<open>readAt\<close> to the time of the call (and with them
  the time stamp \<^verbatim>\<open>updatedAt\<close>) on every message of the conversation that is
  addressed to the reader and not read, leaves every other message as it is, and a
  second call changes nothing.
\<close>

theorem markAsRead_sets_once:
  "(status m \<noteq> READ \<longrightarrow>
      status (markAsRead t t' s m) = READ \<and> readAt (markAsRead t t' s m) = Some t') \<and>
   (status m = READ \<longrightarrow> markAsRead t t' s m = m) \<and>
   markAsRead t2 t3 s2 (markAsRead t t' s m) = markAsRead t t' s m \<and>
   length (markConversationAsRead c u t s ms) = length ms \<and>
   (\<forall>i < length ms.
      (conversationId (ms ! i) = c \<and> receiverId (ms ! i) = u \<and> status (ms ! i) \<noteq> READ \<longrightarrow>
         markConversationAsRead c u t s ms ! i
           = (ms ! i)\<lparr>status := READ, readAt := Some t, updatedAt := s\<rparr>) \<and>
      (\<not> (conversationId (ms ! i) = c \<and> receiverId (ms ! i) = u \<and> status (ms ! i) \<noteq> READ) \<longrightarrow>
         markConversationAsRead c u t s ms ! i = ms ! i)) \<and>
   markConversationAsRead c u t2 s2 (markConversationAsRead c u t s ms)
     = markConversationAsRead c u t s ms"
proof (intro conjI impI allI)
  show "status (markAsRead t t' s m) = READ" if "status m \<noteq> READ"
    by (rule status_markAsRead)
  show "readAt (markAsRead t t' s m) = Some t'" if "status m \<noteq> READ"
    using that by (simp add: markAsRead_not_read)
  show "markAsRead t t' s m = m" if "status m = READ"
    using that by (rule markAsRead_read)
  show "markAsRead t2 t3 s2 (markAsRead t t' s m) = markAsRead t t' s m"
    by (rule markAsRead_read) (rule status_markAsRead)
  show "length (markConversationAsRead c u t s ms) = length ms"
    by (simp add: markConversationAsRead_def length_updateMany)
  show "markConversationAsRead c u t s ms ! i
      = (ms ! i)\<lparr>status := READ, readAt := Some t, updatedAt := s\<rparr>"
    if "i < length ms"
      and "conversationId (ms ! i) = c \<and> receiverId (ms ! i) = u \<and> status (ms ! i) \<noteq> READ" for i
    using that by (simp add: nth_markConversationAsRead)
  show "markConversationAsRead c u t s ms ! i = ms ! i"
    if "i < length ms"
      and "\<not> (conversationId (ms ! i) = c \<and> receiverId (ms ! i) = u \<and> status (ms ! i) \<noteq> READ)" for i
    using that by (simp only: nth_markConversationAsRead if_False)
  show "markConversationAsRead c u t2 s2 (markConversationAsRead c u t s ms)
      = markConversationAsRead c u t s ms"
    by (rule markConversationAsRead_twice)
qed

theorem markAsRead_sets_once_witness:
  "status (new_message ''u1'' ''u2'' ''c1'' ''hi'' 1) \<noteq> READ \<and>
   status (markAsRead 5 6 7 (new_message ''u1'' ''u2'' ''c1'' ''hi'' 1)) = READ \<and>
   readAt (markAsRead 5 6 7 (new_message ''u1'' ''u2'' ''c1'' ''hi'' 1)) = Some 6 \<and>
   markAsRead 8 9 10 (markAsRead 5 6 7 (new_message ''u1'' ''u2'' ''c1'' ''hi'' 1))
     = markAsRead 5 6 7 (new_message ''u1'' ''u2'' ''c1'' ''hi'' 1) \<and>
   readAt (markAsRead 8 9 10 (markAsRead 5 6 7 (new_message ''u1'' ''u2'' ''c1'' ''hi'' 1)))
     = Some 6 \<and>
   (0::nat) < length [new_message ''u1'' ''u2'' ''c1'' ''hi'' 1] \<and>
   markConversationAsRead ''c1'' ''u2'' 5 7 [new_message ''u1'' ''u2'' ''c1'' ''hi'' 1] ! 0
     = (new_message ''u1'' ''u2'' ''c1'' ''hi'' 1)
         \<lparr>status := READ, readAt := Some 5, updatedAt := 7\<rparr> \<and>
   (1::nat) < length [new_message ''u1'' ''u2'' ''c1'' ''hi'' 1,
                      new_message ''u2'' ''u1'' ''c1'' ''ho'' 2] \<and>
   markConversationAsRead ''c1'' ''u2'' 5 7
       [new_message ''u1'' ''u2'' ''c1'' ''hi'' 1, new_message ''u2'' ''u1'' ''c1'' ''ho'' 2] ! 1
     = new_message ''u2'' ''u1'' ''c1'' ''ho'' 2"
  using markAsRead_sets_once
          [of "new_message ''u1'' ''u2'' ''c1'' ''hi'' 1" 5 6 7 8 9 10 "''c1''" "''u2''"
              "[new_message ''u1'' ''u2'' ''c1'' ''hi'' 1]"]
        markAsRead_sets_once
          [of "new_message ''u1'' ''u2'' ''c1'' ''hi'' 1" 5 6 7 8 9 10 "''c1''" "''u2''"
              "[new_message ''u1'' ''u2'' ''c1'' ''hi'' 1,
                new_message ''u2'' ''u1'' ''c1'' ''ho'' 2]"]
  by (simp add: new_message_def)

text \<open>
  Claim C7. \<^verbatim>\<open>getUnreadCount\<close> of a user is the number of messages of the collection
  whose receiver is the user, whose status is not read and that are not deleted.
\<close>

theorem getUnreadCount_counts:
  "getUnreadCount u ms =
     card {i. i < length ms \<and> receiverId (ms ! i) = u \<and> status (ms ! i) \<noteq> READ
              \<and> \<not> isDeleted (ms ! i)}"
  by (simp add: getUnreadCount_def countDocuments_filter length_filter_conv_card)

text \<open>
  Claim C10, as stated, fails: not every other field is unchanged. \<^verbatim>\<open>markAsRead\<close>
  on a sent message that was created at time 1 and is saved at time 7 leaves
  \<^verbatim>\<open>deliveredAt\<close> empty, but the save moves \<^verbatim>\<open>updatedAt\<close> from 1 to 7.
\<close>

theorem markAsRead_stamps_updatedAt:
  "status (new_message ''u1'' ''u2'' ''c1'' ''hi'' 1) = SENT \<and>
   updatedAt (new_message ''u1'' ''u2'' ''c1'' ''hi'' 1) = 1 \<and>
   updatedAt (markAsRead 5 6 7 (new_message ''u1'' ''u2'' ''c1'' ''hi'' 1)) = 7 \<and>
   markAsRead 5 6 7 (new_message ''u1'' ''u2'' ''c1'' ''hi'' 1)
     \<noteq> (new_message ''u1'' ''u2'' ''c1'' ''hi'' 1)\<lparr>status := READ, readAt := Some 6\<rparr>"
proof -
  have s: "status (new_message ''u1'' ''u2'' ''c1'' ''hi'' 1) = SENT"
    and u: "updatedAt (new_message ''u1'' ''u2'' ''c1'' ''hi'' 1) = 1"
    by (simp_all add: new_message_def)
  have r: "updatedAt (markAsRead 5 6 7 (new_message ''u1'' ''u2'' ''c1'' ''hi'' 1)) = 7"
    by (simp add: markAsRead_not_read s)
  have "markAsRead 5 6 7 (new_message ''u1'' ''u2'' ''c1'' ''hi'' 1)
     \<noteq> (new_message ''u1'' ''u2'' ''c1'' ''hi'' 1)\<lparr>status := READ, readAt := Some 6\<rparr>"
  proof
    assume "markAsRead 5 6 7 (new_message ''u1'' ''u2'' ''c1'' ''hi'' 1)
      = (new_message ''u1'' ''u2'' ''c1'' ''hi'' 1)\<lparr>status := READ, readAt := Some 6\<rparr>"
    then have "updatedAt (markAsRead 5 6 7 (new_message ''u1'' ''u2'' ''c1'' ''hi'' 1))
      = updatedAt ((new_message ''u1'' ''u2'' ''c1'' ''hi'' 1)\<lparr>status := READ, readAt := Some 6\<rparr>)"
      by (rule arg_cong)
    with r u show False by simp
  qed
  with s u r show ?thesis by blast
qed

text \<open>
  Claim C10, amended. \<^verbatim>\<open>markAsRead\<close> on a message that is still sent makes it read
  at once: it sets the status and \<^verbatim>\<open>readAt\<close>, the save stamps \<^verbatim>\<open>updatedAt\<close>,
  and \<^verbatim>\<open>deliveredAt\<close> and every other field stay as they were. A read message can
  therefore have no \<^verbatim>\<open>deliveredAt\<close>.
\<close>

theorem markAsRead_skips_delivered:
  "status m = SENT \<Longrightarrow>
   markAsRead t t' s m = m\<lparr>status := READ, readAt := Some t', updatedAt := s\<rparr> \<and>
   deliveredAt (markAsRead t t' s m) = deliveredAt m \<and>
   (deliveredAt m = None \<longrightarrow>
      status (markAsRead t t' s m) = READ \<and> deliveredAt (markAsRead t t' s m) = None)"
  by (simp add: markAsRead_not_read)

theorem markAsRead_skips_delivered_witness:
  "status (new_message ''u1'' ''u2'' ''c1'' ''hi'' 1) = SENT \<and>
   deliveredAt (new_message ''u1'' ''u2'' ''c1'' ''hi'' 1) = None \<and>
   markAsRead 5 6 7 (new_message ''u1'' ''u2'' ''c1'' ''hi'' 1)
     = (new_message ''u1'' ''u2'' ''c1'' ''hi'' 1)
         \<lparr>status := READ, readAt := Some 6, updatedAt := 7\<rparr> \<and>
   status (markAsRead 5 6 7 (new_message ''u1'' ''u2'' ''c1'' ''hi'' 1)) = READ \<and>
   deliveredAt (markAsRead 5 6 7 (new_message ''u1'' ''u2'' ''c1'' ''hi'' 1)) = None"
  using markAsRead_skips_delivered [of "new_message ''u1'' ''u2'' ''c1'' ''hi'' 1" 5 6 7]
  by (simp add: new_message_def)

section \<open>Properties of the conversation model\<close>

lemma set_sort_insert: "set (sort_insert compareFn x xs) = insert x (set xs)"
  by (induction xs) auto

lemma set_array_sort: "set (array_sort compareFn xs) = set xs"
  by (induction xs) (simp_all add: set_sort_insert)

lemma set_array_sort_pair: "set (array_sort localeCompare [a, b]) = {a, b}"
  by (simp only: set_array_sort) simp

lemma localeCompare_rendering:
  "rendering a \<Longrightarrow> rendering b \<Longrightarrow>
   localeCompare a b = (if a < b then - 1 else if a = b then 0 else 1)"
  by (simp add: localeCompare_def)

lemma localeCompare_le: "rendering a \<Longrightarrow> rendering b \<Longrightarrow> localeCompare a b \<le> 0 \<longleftrightarrow> a \<le> b"
  by (auto simp: localeCompare_rendering)

lemma array_sort_pair:
  "rendering a \<Longrightarrow> rendering b \<Longrightarrow>
   array_sort localeCompare [a, b] = (if a \<le> b then [a, b] else [b, a])"
  by (simp add: localeCompare_le)

lemma participants_pre_save:
  "set (participants (pre_save_conversation d)) = set (participants d)"
  by (simp add: pre_save_conversation_def set_array_sort)

lemma ctype_pre_save: "ctype (pre_save_conversation d) = ctype d"
  by (simp add: pre_save_conversation_def)

lemma pre_save_conversation_in_order:
  "participants d = [a, b] \<Longrightarrow> rendering a \<Longrightarrow> rendering b \<Longrightarrow> a \<le> b \<Longrightarrow>
   pre_save_conversation d = d"
  by (simp add: pre_save_conversation_def localeCompare_le)

lemma violates_unique_participants_iff:
  "violates_unique_participants doc coll \<longleftrightarrow>
     (\<exists>d \<in> set coll. set (participants doc) \<inter> set (participants d) \<noteq> {})"
  by (auto simp: violates_unique_participants_def list_ex_iff)

lemma findOne_None: "findOne q coll = None \<longleftrightarrow> (\<forall>d \<in> set coll. \<not> q d)"
  by (auto simp: findOne_def find_None_iff)

lemma findOne_Some_holds: "findOne q coll = Some d \<Longrightarrow> d \<in> set coll \<and> q d"
  by (auto simp: findOne_def find_Some_iff)

lemma findOne_append_new:
  "(\<forall>d \<in> set coll. \<not> q d) \<Longrightarrow> q c \<Longrightarrow> findOne q (coll @ [c]) = Some c"
  by (induction coll) (simp_all add: findOne_def)

lemma countDocuments_none: "(\<forall>d \<in> set coll. \<not> q d) \<Longrightarrow> countDocuments q coll = 0"
  by (induction coll) simp_all

lemma countDocuments_append:
  "countDocuments q (xs @ ys) = countDocuments q xs + countDocuments q ys"
  by (induction xs) simp_all

lemma countDocuments_pos: "d \<in> set coll \<Longrightarrow> q d \<Longrightarrow> 0 < countDocuments q coll"
  by (induction coll) auto

lemma findOrCreateConversation_found:
  "findOne (\<lambda>d. {A, B} \<subseteq> set (participants d) \<and> ctype d = Direct) coll = Some c \<Longrightarrow>
   findOrCreateConversation env A B coll = (Inr c, coll)"
  by (simp add: findOrCreateConversation_def set_array_sort del: array_sort.simps)

lemma create_Inr:
  "create env ps creator coll = Inr (c, coll1) \<Longrightarrow>
   set (participants c) = set ps \<and> ctype c = Direct \<and>
   \<not> violates_unique_participants c coll \<and> coll1 = coll @ [c]"
  by (auto simp: create_def Let_def participants_pre_save ctype_pre_save split: if_splits)

lemma create_rejected:
  "\<exists>d \<in> set coll. set ps \<inter> set (participants d) \<noteq> {} \<Longrightarrow>
   create env ps creator coll = Inl DuplicateKeyError"
  by (simp add: create_def Let_def violates_unique_participants_iff participants_pre_save)

lemma create_accepted:
  "\<forall>d \<in> set coll. set ps \<inter> set (participants d) = {} \<Longrightarrow>
   \<exists>c. create env ps creator coll = Inr (c, coll @ [c])"
  by (simp add: create_def Let_def violates_unique_participants_iff participants_pre_save)

lemma findOrCreateConversation_Inr:
  assumes "findOrCreateConversation env A B coll = (Inr c, coll1)"
  obtains
    (old) "findOne (\<lambda>d. {A, B} \<subseteq> set (participants d) \<and> ctype d = Direct) coll = Some c"
          "coll1 = coll"
  | (new) "findOne (\<lambda>d. {A, B} \<subseteq> set (participants d) \<and> ctype d = Direct) coll = None"
          "set (participants c) = {A, B}" "ctype c = Direct"
          "\<not> violates_unique_participants c (otherWriters env coll)"
          "coll1 = otherWriters env coll @ [c]"
proof (cases "findOne (\<lambda>d. {A, B} \<subseteq> set (participants d) \<and> ctype d = Direct) coll")
  case (Some d)
  with assms have "d = c" and "coll1 = coll"
    by (simp_all add: findOrCreateConversation_def set_array_sort del: array_sort.simps)
  with Some show ?thesis by (intro old) simp_all
next
  case None
  with assms have "create env (array_sort localeCompare [A, B]) A (otherWriters env coll)
      = Inr (c, coll1)"
    by (simp add: findOrCreateConversation_def Let_def set_array_sort del: array_sort.simps
          split: sum.splits prod.splits)
  from create_Inr [OF this]
  have "set (participants c) = {A, B}" and "ctype c = Direct"
    and "\<not> violates_unique_participants c (otherWriters env coll)"
    and "coll1 = otherWriters env coll @ [c]"
    by (simp_all add: set_array_sort del: array_sort.simps)
  with None show ?thesis by (intro new)
qed

text \<open>
  The call returns a conversation exactly when its lookup finds one, or when no stored
  conversation has one of the two users among its participants at the time of the
  create; otherwise the create is rejected.
\<close>

lemma findOrCreateConversation_returns:
  "(\<exists>c coll1. findOrCreateConversation env A B coll = (Inr c, coll1)) \<longleftrightarrow>
   findOne (\<lambda>d. {A, B} \<subseteq> set (participants d) \<and> ctype d = Direct) coll \<noteq> None \<or>
   (\<forall>d \<in> set (otherWriters env coll). A \<notin> set (participants d) \<and> B \<notin> set (participants d))"
proof (cases "findOne (\<lambda>d. {A, B} \<subseteq> set (participants d) \<and> ctype d = Direct) coll")
  case (Some d)
  with findOrCreateConversation_found [OF Some] show ?thesis by blast
next
  case None
  show ?thesis
  proof (cases "\<forall>d \<in> set (otherWriters env coll).
      A \<notin> set (participants d) \<and> B \<notin> set (participants d)")
    case True
    then have "\<forall>d \<in> set (otherWriters env coll).
        set (array_sort localeCompare [A, B]) \<inter> set (participants d) = {}"
      by (simp only: set_array_sort_pair) blast
    from create_accepted [OF this] obtain c where
      "create env (array_sort localeCompare [A, B]) A (otherWriters env coll)
         = Inr (c, otherWriters env coll @ [c])"
      by blast
    with None have "findOrCreateConversation env A B coll
        = (Inr c, otherWriters env coll @ [c])"
      by (simp add: findOrCreateConversation_def Let_def set_array_sort del: array_sort.simps)
    with True show ?thesis by blast
  next
    case False
    then have "\<exists>d \<in> set (otherWriters env coll).
        set (array_sort localeCompare [A, B]) \<inter> set (participants d) \<noteq> {}"
      by (simp only: set_array_sort_pair) blast
    from create_rejected [OF this]
    have "create env (array_sort localeCompare [A, B]) A (otherWriters env coll)
        = Inl DuplicateKeyError" .
    with None have "findOrCreateConversation env A B coll
        = (Inl DuplicateKeyError, otherWriters env coll)"
      by (simp add: findOrCreateConversation_def Let_def set_array_sort del: array_sort.simps)
    with False None show ?thesis by simp
  qed
qed

text \<open>
  What holds of every call that does return a conversation: a later call for the two
  users, in either order, returns that conversation and leaves the collection as it
  is; the conversation is a direct one holding both users; and the number of direct
  conversations holding both goes from n to max 1 n.
\<close>

lemma findOrCreateConversation_again:
  assumes "findOrCreateConversation env A B coll = (Inr c, coll1)"
  shows "findOrCreateConversation env2 B A coll1 = (Inr c, coll1) \<and>
         findOrCreateConversation env2 A B coll1 = (Inr c, coll1) \<and>
         c \<in> set coll1 \<and> ctype c = Direct \<and> {A, B} \<subseteq> set (participants c) \<and>
         countDocuments (\<lambda>d. {A, B} \<subseteq> set (participants d) \<and> ctype d = Direct) coll1
           = max 1 (countDocuments (\<lambda>d. {A, B} \<subseteq> set (participants d) \<and> ctype d = Direct) coll)"
proof -
  let ?p = "\<lambda>d. {A, B} \<subseteq> set (participants d) \<and> ctype d = Direct"
  from assms have "findOne ?p coll1 = Some c \<and>
      countDocuments ?p coll1 = max 1 (countDocuments ?p coll)"
  proof (cases rule: findOrCreateConversation_Inr)
    case old
    from findOne_Some_holds [OF old(1)] have "c \<in> set coll" and "?p c"
      by simp_all
    then have "0 < countDocuments ?p coll" by (rule countDocuments_pos)
    with old show ?thesis by simp
  next
    case new
    have none_before: "\<forall>d \<in> set coll. \<not> ?p d"
      using new(1) by (simp add: findOne_None)
    have none_between: "\<forall>d \<in> set (otherWriters env coll). \<not> ?p d"
      using new(4) new(2) by (auto simp only: violates_unique_participants_iff)
    have pc: "?p c"
      using new(2,3) by simp
    have "findOne ?p coll1 = Some c"
      unfolding new(5) using none_between pc by (rule findOne_append_new)
    moreover have "countDocuments ?p coll1 = max 1 (countDocuments ?p coll)"
    proof -
      have c0: "countDocuments ?p coll = 0"
        by (rule countDocuments_none [OF none_before])
      have c1: "countDocuments ?p (otherWriters env coll) = 0"
        by (rule countDocuments_none [OF none_between])
      have c2: "countDocuments ?p [c] = 1"
        using pc by simp
      show ?thesis
        unfolding new(5) countDocuments_append c0 c1 c2 by simp
    qed
    ultimately show ?thesis by blast
  qed
  then have found: "findOne ?p coll1 = Some c"
    and count: "countDocuments ?p coll1 = max 1 (countDocuments ?p coll)"
    by blast+
  from findOne_Some_holds [OF found] have mem: "c \<in> set coll1" and pc: "?p c"
    by simp_all
  have "findOrCreateConversation env2 A B coll1 = (Inr c, coll1)"
    using found by (rule findOrCreateConversation_found)
  moreover have "findOne (\<lambda>d. {B, A} \<subseteq> set (participants d) \<and> ctype d = Direct) coll1 = Some c"
    using found by (simp add: insert_commute)
  then have "findOrCreateConversation env2 B A coll1 = (Inr c, coll1)"
    by (rule findOrCreateConversation_found)
  ultimately show ?thesis
    using mem pc count by blast
qed

text \<open>The example ids are renderings, in ascending order.\<close>

lemma rendering_examples:
  "rendering user_a" "rendering user_b" "rendering user_c"
  by (simp_all add: rendering_def hex_digit_def user_a_def user_b_def user_c_def)

lemma order_examples:
  "user_a < user_b" "user_a < user_c" "user_b < user_c"
  "user_a \<noteq> user_b" "user_a \<noteq> user_c" "user_b \<noteq> user_c"
  "user_b \<noteq> user_a" "user_c \<noteq> user_a" "user_c \<noteq> user_b"
  by (simp_all add: user_a_def user_b_def user_c_def)

lemma array_sort_examples:
  "array_sort localeCompare [user_b, user_a] = [user_a, user_b]"
  "array_sort localeCompare [user_a, user_b] = [user_a, user_b]"
  "array_sort localeCompare [user_a, user_c] = [user_a, user_c]"
  using order_examples by (simp_all add: array_sort_pair rendering_examples del: array_sort.simps)

lemma quiet_creates_conv_ab:
  "findOrCreateConversation quiet_env user_b user_a [] = (Inr conv_ab, [conv_ab])"
  by (simp add: findOrCreateConversation_def array_sort_examples findOne_def create_def
        quiet_env_def conv_ab_def pre_save_conversation_def
        violates_unique_participants_def Let_def del: array_sort.simps)

lemma quiet_creates_conv_ac:
  "findOrCreateConversation quiet_env user_a user_c [] = (Inr conv_ac, [conv_ac])"
  by (simp add: findOrCreateConversation_def array_sort_examples findOne_def create_def
        quiet_env_def conv_ac_def pre_save_conversation_def
        violates_unique_participants_def Let_def del: array_sort.simps)

text \<open>
  Claim C4. Resolving a conversation is to return the same conversation for every pair
  of users, in either order. The unique index on the array \<^verbatim>\<open>participants\<close> keeps
  one key for each participant, not one for each pair, so a user can be in one
  conversation only: after a and c have their conversation, the call for a and b finds
  none, its create is rejected because a is already a key, and the call throws, in
  either order of the two users. No conversation is returned for the pair.
\<close>

theorem findOrCreateConversation_second_contact_rejected:
  "findOrCreateConversation quiet_env user_a user_c [] = (Inr conv_ac, [conv_ac]) \<and>
   findOrCreateConversation later_env user_a user_b [conv_ac]
     = (Inl DuplicateKeyError, [conv_ac]) \<and>
   findOrCreateConversation later_env user_b user_a [conv_ac]
     = (Inl DuplicateKeyError, [conv_ac])"
proof (intro conjI)
  show "findOrCreateConversation quiet_env user_a user_c [] = (Inr conv_ac, [conv_ac])"
    by (rule quiet_creates_conv_ac)
  show "findOrCreateConversation later_env user_a user_b [conv_ac]
      = (Inl DuplicateKeyError, [conv_ac])"
    using order_examples
    by (simp add: findOrCreateConversation_def array_sort_examples
          findOne_def create_def later_env_def conv_ac_def pre_save_conversation_def
          violates_unique_participants_def Let_def del: array_sort.simps)
  show "findOrCreateConversation later_env user_b user_a [conv_ac]
      = (Inl DuplicateKeyError, [conv_ac])"
    using order_examples
    by (simp add: findOrCreateConversation_def array_sort_examples
          findOne_def create_def later_env_def conv_ac_def pre_save_conversation_def
          violates_unique_participants_def Let_def del: array_sort.simps)
qed

text \<open>
  Claim C5, as stated, fails. While the call for a and b is suspended at its lookup in
  the empty collection, the call for b and a creates the conversation. The create of
  the first call is then rejected by the unique index, and the call ends with the
  duplicate-key error instead of the existing conversation.
\<close>

theorem findOrCreateConversation_surfaces_conflict:
  "findOrCreateConversation quiet_env user_b user_a [] = (Inr conv_ab, [conv_ab]) \<and>
   findOrCreateConversation racing_env user_a user_b [] = (Inl DuplicateKeyError, [conv_ab])"
proof (intro conjI)
  show "findOrCreateConversation quiet_env user_b user_a [] = (Inr conv_ab, [conv_ab])"
    by (rule quiet_creates_conv_ab)
  have w: "otherWriters racing_env [] = [conv_ab]"
    by (simp add: racing_env_def quiet_creates_conv_ab)
  show "findOrCreateConversation racing_env user_a user_b []
      = (Inl DuplicateKeyError, [conv_ab])"
    using order_examples
    by (simp add: findOrCreateConversation_def array_sort_examples w
          findOne_def create_def conv_ab_def pre_save_conversation_def
          violates_unique_participants_def Let_def del: array_sort.simps)
qed

text \<open>
  Claim C5, amended. When the lookup finds no direct conversation of A and B, and by the
  time of the create a stored conversation has A or B among its participants (as after
  a racing creation of the same conversation), the store rejects the create, and
  \<^verbatim>\<open>findOrCreateConversation\<close> throws the duplicate-key error to its caller: it does
  not look the conversation up again, and it leaves the collection as the other writers
  left it.
\<close>

theorem findOrCreateConversation_rethrows:
  assumes "findOne (\<lambda>d. {A, B} \<subseteq> set (participants d) \<and> ctype d = Direct) coll = None"
    and "d \<in> set (otherWriters env coll)"
    and "A \<in> set (participants d) \<or> B \<in> set (participants d)"
  shows "findOrCreateConversation env A B coll = (Inl DuplicateKeyError, otherWriters env coll)"
proof -
  have "\<exists>d \<in> set (otherWriters env coll).
      set (array_sort localeCompare [A, B]) \<inter> set (participants d) \<noteq> {}"
    unfolding set_array_sort_pair using assms(2,3) by blast
  then have "create env (array_sort localeCompare [A, B]) A (otherWriters env coll)
      = Inl DuplicateKeyError"
    by (rule create_rejected)
  with assms(1) show ?thesis
    by (simp add: findOrCreateConversation_def Let_def set_array_sort del: array_sort.simps)
qed

theorem findOrCreateConversation_rethrows_witness:
  "findOne (\<lambda>d. {user_a, user_b} \<subseteq> set (participants d) \<and> ctype d = Direct) [] = None \<and>
   conv_ab \<in> set (otherWriters racing_env []) \<and>
   (user_a \<in> set (participants conv_ab) \<or> user_b \<in> set (participants conv_ab)) \<and>
   findOrCreateConversation racing_env user_a user_b []
     = (Inl DuplicateKeyError, otherWriters racing_env [])"
proof -
  have h1: "findOne (\<lambda>d. {user_a, user_b} \<subseteq> set (participants d) \<and> ctype d = Direct) [] = None"
    by (simp add: findOne_def)
  have h2: "conv_ab \<in> set (otherWriters racing_env [])"
    by (simp add: racing_env_def quiet_creates_conv_ab)
  have h3: "user_a \<in> set (participants conv_ab) \<or> user_b \<in> set (participants conv_ab)"
    by (simp add: conv_ab_def)
  from findOrCreateConversation_rethrows [OF h1 h2 h3] h1 h2 h3 show ?thesis
    by blast
qed

lemma indexOf_bounds: "x \<in> set xs \<Longrightarrow> 0 \<le> indexOf xs x \<and> indexOf xs x < int (length xs)"
  by (induction xs) (auto simp: Let_def)

lemma indexOf_absent: "x \<notin> set xs \<Longrightarrow> indexOf xs x = - 1"
  by (induction xs) (auto simp: Let_def)

lemma indexOf_found: "indexOf xs x > - 1 \<longleftrightarrow> x \<in> set xs"
  using indexOf_bounds [of x xs] indexOf_absent [of x xs] by fastforce

lemma splice1_Cons: "0 \<le> i \<Longrightarrow> splice1 (i + 1) (y # ys) = y # splice1 i ys"
  by (simp add: splice1_def Let_def nat_add_distrib min_def)

lemma splice1_indexOf: "x \<in> set xs \<Longrightarrow> splice1 (indexOf xs x) xs = remove1 x xs"
proof (induction xs)
  case Nil
  then show ?case by simp
next
  case (Cons y ys)
  show ?case
  proof (cases "y = x")
    case True
    then show ?thesis by (simp add: splice1_def)
  next
    case False
    with Cons.prems have mem: "x \<in> set ys" by simp
    then have "0 \<le> indexOf ys x" by (simp add: indexOf_bounds)
    with False mem Cons.IH show ?thesis
      by (simp add: Let_def splice1_Cons)
  qed
qed

lemma mutedBy_save: "mutedBy (save_conversation stored s c) = mutedBy c"
  by (simp add: save_conversation_def timestamps_conversation_def pre_save_conversation_def)

lemma archivedBy_save: "archivedBy (save_conversation stored s c) = archivedBy c"
  by (simp add: save_conversation_def timestamps_conversation_def pre_save_conversation_def)

lemma toggleMute_eq:
  "toggleMute u s c = Document (save_conversation c s
     (c\<lparr>mutedBy := (if u \<in> set (mutedBy c) then remove1 u (mutedBy c) else mutedBy c @ [u])\<rparr>))"
  by (simp add: toggleMute_def Let_def indexOf_found splice1_indexOf)

lemma toggleArchive_eq:
  "toggleArchive u s c = Document (save_conversation c s
     (c\<lparr>archivedBy := (if u \<in> set (archivedBy c) then remove1 u (archivedBy c)
                       else archivedBy c @ [u])\<rparr>))"
  by (simp add: toggleArchive_def Let_def indexOf_found splice1_indexOf)

lemma isMutedFor_iff: "isMutedFor u c \<longleftrightarrow> u \<in> set (mutedBy c)"
  by (auto simp: isMutedFor_def list_ex_iff)

lemma isArchivedFor_iff: "isArchivedFor u c \<longleftrightarrow> u \<in> set (archivedBy c)"
  by (auto simp: isArchivedFor_def list_ex_iff)

lemma flip_distinct:
  "distinct xs \<Longrightarrow>
   distinct (if u \<in> set xs then remove1 u xs else xs @ [u]) \<and>
   (u \<in> set (if u \<in> set xs then remove1 u xs else xs @ [u]) \<longleftrightarrow> u \<notin> set xs) \<and>
   (\<forall>v. v \<noteq> u \<longrightarrow> (v \<in> set (if u \<in> set xs then remove1 u xs else xs @ [u]) \<longleftrightarrow> v \<in> set xs))"
  by auto

lemma differs_mutedBy: "mutedBy (a :: conversation) \<noteq> mutedBy b \<Longrightarrow> a \<noteq> b"
  by auto

lemma differs_archivedBy: "archivedBy (a :: conversation) \<noteq> archivedBy b \<Longrightarrow> a \<noteq> b"
  by auto

lemma save_conversation_in_order:
  assumes "c \<noteq> stored" and "participants c = [a, b]"
    and "rendering a" and "rendering b" and "a \<le> b"
  shows "save_conversation stored s c = c\<lparr>updatedAt := s\<rparr>"
proof -
  have "pre_save_conversation (c\<lparr>updatedAt := s\<rparr>) = c\<lparr>updatedAt := s\<rparr>"
    by (rule pre_save_conversation_in_order [of _ a b]) (use assms in simp_all)
  with assms(1) show ?thesis
    by (simp add: save_conversation_def timestamps_conversation_def)
qed

lemma participants_conv_ab: "participants conv_ab = [user_a, user_b]"
  by (simp add: conv_ab_def)

lemma lists_conv_ab: "mutedBy conv_ab = []" "archivedBy conv_ab = []"
  by (simp_all add: conv_ab_def)

lemma save_muted_conv_ab:
  "m \<noteq> [] \<Longrightarrow>
   save_conversation conv_ab s (conv_ab\<lparr>mutedBy := m\<rparr>) = conv_ab\<lparr>mutedBy := m, updatedAt := s\<rparr>"
  using save_conversation_in_order [of "conv_ab\<lparr>mutedBy := m\<rparr>" conv_ab user_a user_b s]
    differs_mutedBy [of "conv_ab\<lparr>mutedBy := m\<rparr>" conv_ab]
  by (simp add: participants_conv_ab lists_conv_ab rendering_examples order_examples less_imp_le)

lemma save_archived_conv_ab:
  "r \<noteq> [] \<Longrightarrow>
   save_conversation conv_ab s (conv_ab\<lparr>archivedBy := r\<rparr>)
     = conv_ab\<lparr>archivedBy := r, updatedAt := s\<rparr>"
  using save_conversation_in_order [of "conv_ab\<lparr>archivedBy := r\<rparr>" conv_ab user_a user_b s]
    differs_archivedBy [of "conv_ab\<lparr>archivedBy := r\<rparr>" conv_ab]
  by (simp add: participants_conv_ab lists_conv_ab rendering_examples order_examples less_imp_le)

text \<open>
  Claim C9, as stated, fails in what the toggles return. Muting (archiving) the
  conversation of a and b for user a makes a a member of \<^verbatim>\<open>mutedBy\<close>
  (\<^verbatim>\<open>archivedBy\<close>), so the new state is true; the call returns the saved
  document, not the boolean.
\<close>

theorem toggleMute_returns_document:
  "toggleMute user_a 9 conv_ab = Document (conv_ab\<lparr>mutedBy := [user_a], updatedAt := 9\<rparr>) \<and>
   isMutedFor user_a (conv_ab\<lparr>mutedBy := [user_a], updatedAt := 9\<rparr>) \<and>
   toggleMute user_a 9 conv_ab \<noteq> Boolean True \<and>
   toggleArchive user_a 9 conv_ab
     = Document (conv_ab\<lparr>archivedBy := [user_a], updatedAt := 9\<rparr>) \<and>
   isArchivedFor user_a (conv_ab\<lparr>archivedBy := [user_a], updatedAt := 9\<rparr>) \<and>
   toggleArchive user_a 9 conv_ab \<noteq> Boolean True"
proof -
  have 1: "toggleMute user_a 9 conv_ab
      = Document (conv_ab\<lparr>mutedBy := [user_a], updatedAt := 9\<rparr>)"
    by (simp add: toggleMute_def lists_conv_ab save_muted_conv_ab)
  have 2: "toggleArchive user_a 9 conv_ab
      = Document (conv_ab\<lparr>archivedBy := [user_a], updatedAt := 9\<rparr>)"
    by (simp add: toggleArchive_def lists_conv_ab save_archived_conv_ab)
  show ?thesis
    by (simp add: 1 2 isMutedFor_def isArchivedFor_def)
qed

text \<open>
  Claim C9, amended. On a conversation whose \<^verbatim>\<open>mutedBy\<close> array holds no user
  twice, \<^verbatim>\<open>toggleMute\<close> flips the membership of the user in that array (appending
  an absent user, removing a present one), keeps the membership of every other user
  and the other array, keeps the array free of repetitions, and returns the saved
  document, on which \<^verbatim>\<open>isMutedFor\<close> gives the new state. The same holds of
  \<^verbatim>\<open>toggleArchive\<close>, \<^verbatim>\<open>archivedBy\<close> and \<^verbatim>\<open>isArchivedFor\<close>.
\<close>

theorem toggles_flip_membership:
  "(distinct (mutedBy c) \<longrightarrow>
      (\<exists>c'. toggleMute u s c = Document c' \<and>
            mutedBy c' = (if isMutedFor u c then remove1 u (mutedBy c) else mutedBy c @ [u]) \<and>
            (isMutedFor u c' \<longleftrightarrow> \<not> isMutedFor u c) \<and>
            (\<forall>v. v \<noteq> u \<longrightarrow> (isMutedFor v c' \<longleftrightarrow> isMutedFor v c)) \<and>
            distinct (mutedBy c') \<and> archivedBy c' = archivedBy c)) \<and>
   (distinct (archivedBy c) \<longrightarrow>
      (\<exists>c'. toggleArchive u s c = Document c' \<and>
            archivedBy c' = (if isArchivedFor u c then remove1 u (archivedBy c)
                             else archivedBy c @ [u]) \<and>
            (isArchivedFor u c' \<longleftrightarrow> \<not> isArchivedFor u c) \<and>
            (\<forall>v. v \<noteq> u \<longrightarrow> (isArchivedFor v c' \<longleftrightarrow> isArchivedFor v c)) \<and>
            distinct (archivedBy c') \<and> mutedBy c' = mutedBy c))"
proof (intro conjI impI)
  assume d: "distinct (mutedBy c)"
  let ?m = "if u \<in> set (mutedBy c) then remove1 u (mutedBy c) else mutedBy c @ [u]"
  let ?c = "save_conversation c s (c\<lparr>mutedBy := ?m\<rparr>)"
  have m: "mutedBy ?c = ?m" and a: "archivedBy ?c = archivedBy c"
    by (simp_all add: mutedBy_save archivedBy_save)
  from flip_distinct [OF d, of u]
  have "mutedBy ?c = (if isMutedFor u c then remove1 u (mutedBy c) else mutedBy c @ [u]) \<and>
        (isMutedFor u ?c \<longleftrightarrow> \<not> isMutedFor u c) \<and>
        (\<forall>v. v \<noteq> u \<longrightarrow> (isMutedFor v ?c \<longleftrightarrow> isMutedFor v c)) \<and>
        distinct (mutedBy ?c) \<and> archivedBy ?c = archivedBy c"
    unfolding isMutedFor_iff m a by simp
  then show "\<exists>c'. toggleMute u s c = Document c' \<and>
            mutedBy c' = (if isMutedFor u c then remove1 u (mutedBy c) else mutedBy c @ [u]) \<and>
            (isMutedFor u c' \<longleftrightarrow> \<not> isMutedFor u c) \<and>
            (\<forall>v. v \<noteq> u \<longrightarrow> (isMutedFor v c' \<longleftrightarrow> isMutedFor v c)) \<and>
            distinct (mutedBy c') \<and> archivedBy c' = archivedBy c"
    using toggleMute_eq [of u s c] by blast
next
  assume d: "distinct (archivedBy c)"
  let ?m = "if u \<in> set (archivedBy c) then remove1 u (archivedBy c) else archivedBy c @ [u]"
  let ?c = "save_conversation c s (c\<lparr>archivedBy := ?m\<rparr>)"
  have m: "archivedBy ?c = ?m" and a: "mutedBy ?c = mutedBy c"
    by (simp_all add: mutedBy_save archivedBy_save)
  from flip_distinct [OF d, of u]
  have "archivedBy ?c = (if isArchivedFor u c then remove1 u (archivedBy c)
                         else archivedBy c @ [u]) \<and>
        (isArchivedFor u ?c \<longleftrightarrow> \<not> isArchivedFor u c) \<and>
        (\<forall>v. v \<noteq> u \<longrightarrow> (isArchivedFor v ?c \<longleftrightarrow> isArchivedFor v c)) \<and>
        distinct (archivedBy ?c) \<and> mutedBy ?c = mutedBy c"
    unfolding isArchivedFor_iff m a by simp
  then show "\<exists>c'. toggleArchive u s c = Document c' \<and>
            archivedBy c' = (if isArchivedFor u c then remove1 u (archivedBy c)
                             else archivedBy c @ [u]) \<and>
            (isArchivedFor u c' \<longleftrightarrow> \<not> isArchivedFor u c) \<and>
            (\<forall>v. v \<noteq> u \<longrightarrow> (isArchivedFor v c' \<longleftrightarrow> isArchivedFor v c)) \<and>
            distinct (archivedBy c') \<and> mutedBy c' = mutedBy c"
    using toggleArchive_eq [of u s c] by blast
qed

theorem toggles_flip_membership_witness:
  "distinct (mutedBy conv_ab) \<and>
   (\<exists>c'. toggleMute user_a 9 conv_ab = Document c' \<and> mutedBy c' = [user_a]
      \<and> isMutedFor user_a c') \<and>
   distinct (archivedBy conv_ab) \<and>
   (\<exists>c'. toggleArchive user_a 9 conv_ab = Document c' \<and> archivedBy c' = [user_a]
      \<and> isArchivedFor user_a c') \<and>
   distinct (mutedBy (conv_ab\<lparr>mutedBy := [user_b, user_a]\<rparr>)) \<and>
   (\<exists>c'. toggleMute user_a 9 (conv_ab\<lparr>mutedBy := [user_b, user_a]\<rparr>) = Document c'
      \<and> mutedBy c' = [user_b] \<and> \<not> isMutedFor user_a c' \<and> isMutedFor user_b c')"
proof -
  have ba: "user_b \<noteq> user_a" by (rule order_examples)
  have d1: "distinct (mutedBy conv_ab)" and d2: "distinct (archivedBy conv_ab)"
    and d3: "distinct (mutedBy (conv_ab\<lparr>mutedBy := [user_b, user_a]\<rparr>))"
    using ba by (simp_all add: lists_conv_ab)
  have n1: "\<not> isMutedFor user_a conv_ab" and n2: "\<not> isArchivedFor user_a conv_ab"
    and y: "isMutedFor user_a (conv_ab\<lparr>mutedBy := [user_b, user_a]\<rparr>)"
    and z: "isMutedFor user_b (conv_ab\<lparr>mutedBy := [user_b, user_a]\<rparr>)"
    by (simp_all add: isMutedFor_iff isArchivedFor_iff lists_conv_ab)
  from toggles_flip_membership [of conv_ab user_a 9] d1 obtain c1 where
    "toggleMute user_a 9 conv_ab = Document c1"
    "mutedBy c1 = (if isMutedFor user_a conv_ab then remove1 user_a (mutedBy conv_ab)
                   else mutedBy conv_ab @ [user_a])"
    "isMutedFor user_a c1 \<longleftrightarrow> \<not> isMutedFor user_a conv_ab"
    by blast
  with n1 have w1: "\<exists>c'. toggleMute user_a 9 conv_ab = Document c' \<and> mutedBy c' = [user_a]
      \<and> isMutedFor user_a c'"
    by (simp add: lists_conv_ab)
  from toggles_flip_membership [of conv_ab user_a 9] d2 obtain c2 where
    "toggleArchive user_a 9 conv_ab = Document c2"
    "archivedBy c2 = (if isArchivedFor user_a conv_ab then remove1 user_a (archivedBy conv_ab)
                      else archivedBy conv_ab @ [user_a])"
    "isArchivedFor user_a c2 \<longleftrightarrow> \<not> isArchivedFor user_a conv_ab"
    by blast
  with n2 have w2: "\<exists>c'. toggleArchive user_a 9 conv_ab = Document c'
      \<and> archivedBy c' = [user_a] \<and> isArchivedFor user_a c'"
    by (simp add: lists_conv_ab)
  from toggles_flip_membership [of "conv_ab\<lparr>mutedBy := [user_b, user_a]\<rparr>" user_a 9] d3
  obtain c3 where
    "toggleMute user_a 9 (conv_ab\<lparr>mutedBy := [user_b, user_a]\<rparr>) = Document c3"
    "mutedBy c3 = (if isMutedFor user_a (conv_ab\<lparr>mutedBy := [user_b, user_a]\<rparr>)
                   then remove1 user_a (mutedBy (conv_ab\<lparr>mutedBy := [user_b, user_a]\<rparr>))
                   else mutedBy (conv_ab\<lparr>mutedBy := [user_b, user_a]\<rparr>) @ [user_a])"
    "isMutedFor user_a c3 \<longleftrightarrow> \<not> isMutedFor user_a (conv_ab\<lparr>mutedBy := [user_b, user_a]\<rparr>)"
    "\<forall>v. v \<noteq> user_a \<longrightarrow>
       (isMutedFor v c3 \<longleftrightarrow> isMutedFor v (conv_ab\<lparr>mutedBy := [user_b, user_a]\<rparr>))"
    by blast
  with y z ba have w3: "\<exists>c'. toggleMute user_a 9 (conv_ab\<lparr>mutedBy := [user_b, user_a]\<rparr>)
      = Document c' \<and> mutedBy c' = [user_b] \<and> \<not> isMutedFor user_a c' \<and> isMutedFor user_b c'"
    by simp
  from d1 w1 d2 w2 d3 w3 show ?thesis by (intro conjI)
qed

section \<open>Properties of the presence registry\<close>

text \<open>
  Claim C3, as stated, fails. User u1 connects with socket s1 and then with socket s2:
  the registry holds s2 alone. When s1 disconnects, the entry of u1 is deleted and the
  offline event is broadcast, although s2 is still connected.
\<close>

theorem second_session_lost:
  "receiverSocketId
     (on_connect ''s2'' (Some ''u1'') 2 (on_connect ''s1'' (Some ''u1'') 1 empty_registry))
     ''u1'' = Some ''s2'' \<and>
   receiverSocketId
     (on_disconnect (Some ''u1'') 3
       (on_connect ''s2'' (Some ''u1'') 2 (on_connect ''s1'' (Some ''u1'') 1 empty_registry)))
     ''u1'' = None \<and>
   emitted
     (on_disconnect (Some ''u1'') 3
       (on_connect ''s2'' (Some ''u1'') 2 (on_connect ''s1'' (Some ''u1'') 1 empty_registry)))
     = [USER_ONLINE (Some ''u1'') ''online'' 1, USER_ONLINE (Some ''u1'') ''online'' 2,
        USER_OFFLINE (Some ''u1'') ''offline'' 3]"
  by (simp add: receiverSocketId_def on_connect_def on_disconnect_def empty_registry_def)

text \<open>
  Claim C3, amended. The registry holds one session handle for a user, the one
  registered last, and the user is online when the registry has an entry for the user.
  Registering a handle for a user with a non-empty id stores it, in place of an earlier
  one, and broadcasts the online event. Unregistering a handle of the user deletes the
  entry of the user, also when another handle was registered after it, and broadcasts
  the offline event with \<^verbatim>\<open>lastSeen\<close> set to the time of the disconnect. The
  entries of other users are not touched.
\<close>

theorem registry_keeps_last_handle:
  assumes "truthy uid"
  shows "activeUsers (on_connect s1 uid t1 st) uid = Some s1 \<and>
         emitted (on_connect s1 uid t1 st) = emitted st @ [USER_ONLINE uid ''online'' t1] \<and>
         activeUsers (on_connect s2 uid t2 (on_connect s1 uid t1 st)) uid = Some s2 \<and>
         activeUsers (on_disconnect uid t3 (on_connect s2 uid t2 (on_connect s1 uid t1 st))) uid
           = None \<and>
         activeUsers (on_disconnect uid t3 st) uid = None \<and>
         emitted (on_disconnect uid t3 st) = emitted st @ [USER_OFFLINE uid ''offline'' t3] \<and>
         (\<forall>v. v \<noteq> uid \<longrightarrow>
            activeUsers (on_connect s1 uid t1 st) v = activeUsers st v \<and>
            activeUsers (on_disconnect uid t3 st) v = activeUsers st v)"
  using assms by (simp add: on_connect_def on_disconnect_def)

theorem registry_keeps_last_handle_witness:
  "truthy (Some ''u1'') \<and>
   activeUsers (on_connect ''s1'' (Some ''u1'') 1 empty_registry) (Some ''u1'') = Some ''s1'' \<and>
   activeUsers (on_connect ''s2'' (Some ''u1'') 2
      (on_connect ''s1'' (Some ''u1'') 1 empty_registry)) (Some ''u1'') = Some ''s2'' \<and>
   activeUsers (on_disconnect (Some ''u1'') 3 (on_connect ''s2'' (Some ''u1'') 2
      (on_connect ''s1'' (Some ''u1'') 1 empty_registry))) (Some ''u1'') = None \<and>
   emitted (on_disconnect (Some ''u1'') 3 empty_registry)
     = [USER_OFFLINE (Some ''u1'') ''offline'' 3] \<and>
   Some ''u2'' \<noteq> Some ''u1'' \<and>
   activeUsers (on_disconnect (Some ''u1'') 3 empty_registry) (Some ''u2'')
     = activeUsers empty_registry (Some ''u2'')"
proof -
  have h: "truthy (Some ''u1'')" by simp
  from registry_keeps_last_handle [OF h, of "''s1''" 1 empty_registry "''s2''" 2 3] h
  show ?thesis by (simp add: empty_registry_def)
qed

end
